theory Spec2Isabelle
  imports Main "HOL-Library.Word"
begin

unbundle bit_operations_syntax

section \<open>The translation layer: \<open>event\<close>\<close>

text \<open>
  \<open>event(status, chan, data1, data2)\<close> is called for every assembled message. What it
  does to the outside world is recorded as a list of effects, in program order: the
  diagnostic line it prints, the call of \<open>midi_send_control_change\<close> (declared in
  \<open>midi.h\<close>, with the three arguments it is given), and the line printed when that call
  reports a failure.
\<close>

datatype effect =
    Printf_status int int int int
  | Midi_send_control_change int int int
  | Printf_couldnt_send

text \<open>
  The first argument says whether the file is compiled with \<open>CC72_TEST\<close> defined (it is
  not defined anywhere in the file, so the plain build has \<open>False\<close>); the second is the
  value \<open>midi_send_control_change\<close> returns if it is called. All C values are \<open>int\<close>.
\<close>

definition event :: "bool \<Rightarrow> int \<Rightarrow> int \<Rightarrow> int \<Rightarrow> int \<Rightarrow> int \<Rightarrow> effect list" where
  "event cc72_test ret status chan data1 data2 =
     (if status = 176 then
        (if data1 < 96 \<or> data1 > 103 then [Printf_status status chan data1 data2] else [])
        @ (if cc72_test then
             (if data1 = 72
              then Midi_send_control_change 1 69 data2 # (if ret < 0 then [Printf_couldnt_send] else [])
              else [])
           else
             Midi_send_control_change 1 data1 data2 # (if ret < 0 then [Printf_couldnt_send] else []))
      else [])"

text \<open>The calls of the MIDI sink among the effects.\<close>

fun is_send :: "effect \<Rightarrow> bool" where
  "is_send (Midi_send_control_change c n v) = True"
| "is_send _ = False"

definition forwarded :: "effect list \<Rightarrow> effect list" where
  "forwarded es = filter is_send es"

section \<open>The decoder: \<open>process\<close> and \<open>process_buffer\<close>\<close>

datatype midi_state = STATUS | DATA1 | DATA2

text \<open>
  The four \<open>static\<close> variables of \<open>process\<close>. \<open>data1\<close> has no initialiser, so it starts
  at zero like every object of static storage duration.
\<close>

record decoder =
  state :: midi_state
  status :: int
  chan :: int
  data1 :: int

definition decoder_init :: decoder where
  "decoder_init = \<lparr>state = STATUS, status = - 1, chan = - 1, data1 = 0\<rparr>"

text \<open>
  One call \<open>event(status, chan, data1, data2)\<close> made by \<open>process\<close>, with its four
  arguments: the Event of the specification.
\<close>

type_synonym event_call = "int \<times> int \<times> int \<times> int"

text \<open>
  \<open>process\<close> returns the new values of the static variables and the calls of \<open>event\<close>
  it made (none or one).
\<close>

definition process :: "decoder \<Rightarrow> int \<Rightarrow> decoder \<times> event_call list" where
  "process s data0 =
     (let data = data0 AND 0xff in
      if data AND 0x80 \<noteq> 0 then
        (s\<lparr>status := data AND 0xf0, chan := data AND 0x0f, state := DATA1\<rparr>, [])
      else
        (case state s of
           STATUS \<Rightarrow> (s, [])
         | DATA1 \<Rightarrow> (s\<lparr>data1 := data, state := DATA2\<rparr>, [])
         | DATA2 \<Rightarrow> (s\<lparr>state := DATA1\<rparr>, [(status s, chan s, data1 s, data)])))"

text \<open>
  \<open>process_buffer(data, len)\<close>: the buffer of \<open>len\<close> bytes at \<open>data\<close> is the list. Each
  element is passed as a \<open>char\<close> promoted to \<open>int\<close>, read here as a signed char; the
  mask in \<open>process\<close> makes the signedness of \<open>char\<close> irrelevant (lemma \<open>process_char\<close>).
\<close>

fun process_buffer :: "decoder \<Rightarrow> 8 word list \<Rightarrow> decoder \<times> event_call list" where
  "process_buffer s [] = (s, [])"
| "process_buffer s (b # bs) =
     (case process s (sint b) of (s1, es1) \<Rightarrow>
        (case process_buffer s1 bs of (s2, es2) \<Rightarrow> (s2, es1 @ es2)))"

section \<open>Bring-up payloads: \<open>digit\<close>, \<open>byte\<close>, \<open>send_hexdata\<close>\<close>

text \<open>
  \<open>digit\<close> takes a \<open>uint8_t\<close> and computes in \<open>int\<close>; the character constants are
  \<open>'0' = 48\<close>, \<open>'9' = 57\<close> and \<open>'a' = 97\<close>.
\<close>

definition digit :: "8 word \<Rightarrow> int" where
  "digit hexdigit = uint hexdigit - 48 - (if uint hexdigit > 57 then 97 - (57 + 1) else 0)"

text \<open>
  \<open>x << n\<close> on a 32-bit \<open>int\<close>: C defines the result only for a non-negative \<open>x\<close> whose
  shifted value fits; otherwise the behaviour is undefined, which is \<open>None\<close> here.
\<close>

definition shift_left :: "int \<Rightarrow> nat \<Rightarrow> int option" where
  "shift_left x n = (if x < 0 \<or> 2 ^ 31 \<le> x * 2 ^ n then None else Some (push_bit n x))"

text \<open>
  \<open>byte(string)\<close> reads \<open>string[0]\<close> and \<open>string[1]\<close>. A C string is the list of its
  characters before the terminating NUL: on a string of one character \<open>string[1]\<close> is
  the terminator, on the empty string it lies behind the terminator.
\<close>

fun byte :: "string \<Rightarrow> int option" where
  "byte (c0 # c1 # cs) =
     map_option (\<lambda>hi. hi OR digit (of_char c1)) (shift_left (digit (of_char c0)) 4)"
| "byte [c0] = map_option (\<lambda>hi. hi OR digit 0) (shift_left (digit (of_char c0)) 4)"
| "byte [] = None"

text \<open>
  The loop of \<open>send_hexdata\<close>: while \<open>*string\<close> is not the terminator, store
  \<open>byte(string)\<close> (converted to \<open>uint8_t\<close>) at \<open>*p++\<close> and advance \<open>string\<close> by two.
  \<open>buf\<close> holds 80 bytes; a string of odd length makes \<open>string\<close> step over its
  terminator. Both are undefined behaviour, \<open>None\<close> here.
\<close>

fun hex_loop :: "string \<Rightarrow> 8 word list \<Rightarrow> 8 word list option" where
  "hex_loop [] buf = Some buf"
| "hex_loop [c0] buf = None"
| "hex_loop (c0 # c1 # cs) buf =
     (if 80 \<le> length buf then None
      else case byte (c0 # c1 # cs) of
             None \<Rightarrow> None
           | Some v \<Rightarrow> hex_loop cs (buf @ [word_of_int v]))"

text \<open>
  \<open>send_hexdata\<close>: the bytes handed to \<open>send_data\<close>; what it returns is the return value
  of \<open>libusb_interrupt_transfer\<close>.
\<close>

definition send_hexdata :: "string \<Rightarrow> 8 word list option" where
  "send_hexdata string = hex_loop string []"

text \<open>The characters the comment on \<open>digit\<close> lists, in the order of their values.\<close>

definition hexdigits :: string where
  "hexdigits = ''0123456789abcdef''"

section \<open>The connection manager: \<open>usb_connect\<close>\<close>

text \<open>Error codes of \<open>libusb.h\<close>.\<close>

definition LIBUSB_ERROR_NO_DEVICE :: int where
  "LIBUSB_ERROR_NO_DEVICE = - 4"

definition LIBUSB_ERROR_OTHER :: int where
  "LIBUSB_ERROR_OTHER = - 99"

text \<open>
  What libusb answers during one call of \<open>usb_connect\<close>: the handle
  \<open>libusb_open_device_with_vid_pid\<close> returns (\<open>None\<close> for \<open>NULL\<close>), whether
  \<open>libusb_get_device\<close> returns a device, the return values of the calls that report a
  status, and the \<open>bEndpointAddress\<close> of the two endpoints of configuration 1,
  interface 0, alternate setting 0.
\<close>

record usb_env =
  open_device :: "nat option"
  get_device :: bool
  get_device_descriptor :: int
  get_config_descriptor :: int
  ep0_address :: "8 word"
  ep1_address :: "8 word"
  set_configuration :: int
  claim_interface :: int

record usb_info =
  devh :: "nat option"
  rx_ep :: "8 word"
  tx_ep :: "8 word"

text \<open>
  The test \<open>tx_ep < 0 || rx_ep < 0\<close>: both are \<open>uint8_t\<close>, promoted to \<open>int\<close> for the
  comparison.
\<close>

definition endpoints_unset :: "8 word \<Rightarrow> 8 word \<Rightarrow> bool" where
  "endpoints_unset tx rx = (uint tx < 0 \<or> uint rx < 0)"

text \<open>
  \<open>usb_connect\<close> returns its status and, when it fills in \<open>usb_info\<close>, the new contents.
  \<open>uint8_t rx_ep = -1, tx_ep = -1\<close> initialises both to 255.
\<close>

definition usb_connect :: "usb_env \<Rightarrow> int \<times> usb_info option" where
  "usb_connect e =
     (case open_device e of
        None \<Rightarrow> (LIBUSB_ERROR_NO_DEVICE, None)
      | Some h \<Rightarrow>
          if \<not> get_device e then (LIBUSB_ERROR_NO_DEVICE, None)
          else if get_device_descriptor e < 0 then (get_device_descriptor e, None)
          else if get_config_descriptor e < 0 then (get_config_descriptor e, None)
          else
            let ep0 = ep0_address e;
                ep1 = ep1_address e;
                rx_a = (if uint ep0 AND 128 \<noteq> 0 then ep0 else word_of_int (- 1));
                tx_a = (if uint ep0 AND 128 \<noteq> 0 then word_of_int (- 1) else ep0);
                rx_b = (if uint ep1 AND 128 \<noteq> 0 then ep1 else rx_a);
                tx_b = (if uint ep1 AND 128 \<noteq> 0 then tx_a else ep1)
            in if endpoints_unset tx_b rx_b then (LIBUSB_ERROR_NO_DEVICE, None)
               else if set_configuration e < 0 then (set_configuration e, None)
               else if claim_interface e < 0 then (claim_interface e, None)
               else (0, Some \<lparr>devh = Some h, rx_ep = rx_b, tx_ep = tx_b\<rparr>))"

section \<open>Device bring-up: \<open>nocturn_init\<close>\<close>

text \<open>
  The four arguments are the return values of the four calls of \<open>send_hexdata\<close>, in
  order. The result is the status and the hex strings sent. Only the first two calls are
  checked.
\<close>

definition nocturn_init :: "int \<Rightarrow> int \<Rightarrow> int \<Rightarrow> int \<Rightarrow> int \<times> string list" where
  "nocturn_init r1 r2 r3 r4 =
     (if r1 < 0 then (r1, [''b04800''])
      else if r2 < 0 then (r2, [''b04800'', ''b04060''])
      else (0, [''b04800'', ''b04060'', ''b05130'', ''b05030'']))"

section \<open>The reactor: \<open>rx_cb\<close> and \<open>receive_loop\<close>\<close>

text \<open>
  \<open>struct pollfd\<close> and \<open>POLLIN\<close> of \<open>poll.h\<close>; the sizes the source defines.
\<close>

record pollfd =
  fd :: int
  events :: "16 word"
  revents :: "16 word"

definition POLLIN :: "16 word" where
  "POLLIN = 1"

definition POLLFDS :: nat where
  "POLLFDS = 10"

definition RX_BUFSIZE :: nat where
  "RX_BUFSIZE = 10"

text \<open>\<open>enum libusb_transfer_status\<close> of \<open>libusb.h\<close>.\<close>

datatype transfer_status =
    LIBUSB_TRANSFER_COMPLETED
  | LIBUSB_TRANSFER_ERROR
  | LIBUSB_TRANSFER_TIMED_OUT
  | LIBUSB_TRANSFER_CANCELLED
  | LIBUSB_TRANSFER_STALL
  | LIBUSB_TRANSFER_NO_DEVICE
  | LIBUSB_TRANSFER_OVERFLOW

text \<open>
  What the loop does that can be seen from outside: a call of
  \<open>libusb_submit_transfer\<close>, a call of \<open>event\<close> made by the decoder, a call of
  \<open>midi_input\<close>, and \<open>libusb_free_transfer\<close>.
\<close>

datatype reactor_action =
    Submit_transfer
  | Call_event event_call
  | Midi_input
  | Free_transfer

text \<open>
  The places of \<open>receive_loop\<close> between which the environment is consulted: before the
  first \<open>libusb_submit_transfer\<close>; before \<open>resubmit = 0\<close>; at the top of the loop,
  before the wait set is built and \<open>poll\<close> is called; before
  \<open>libusb_handle_events_timeout\<close>; before the loop over the MIDI descriptors; before
  \<open>if (resubmit)\<close>; before \<open>libusb_submit_transfer\<close> inside it; at \<open>exit_ml\<close>; and
  after \<open>return\<close>.
\<close>

datatype location =
    At_submit
  | At_clear
  | At_wait
  | At_handle_events
  | At_midi
  | At_check
  | At_resubmit
  | At_exit_ml
  | Returned

text \<open>
  The variables of \<open>receive_loop\<close> (\<open>fds\<close> is the length of \<open>pollfds\<close>: the entries
  behind it are never read), the static variables of \<open>process\<close>, what was done so far,
  and \<open>in_flight\<close>, which is libusb's: the number of submissions of the transfer that
  have not completed yet.
\<close>

record reactor =
  pc :: location
  resubmit :: int
  stat :: int
  pollfds :: "pollfd list"
  usbfds :: nat
  codec :: decoder
  done_so_far :: "reactor_action list"
  in_flight :: nat

text \<open>
  What the environment answers at one place: the return value of
  \<open>libusb_submit_transfer\<close>; the descriptors \<open>libusb_get_pollfds\<close> lists (\<open>fd\<close> and
  \<open>events\<close> of each, up to the terminating \<open>NULL\<close>); the return values of
  \<open>libusb_get_next_timeout\<close> and \<open>poll\<close>; the \<open>revents\<close> that \<open>poll\<close> writes into
  each entry of the wait set; and the completion that
  \<open>libusb_handle_events_timeout\<close> finds, if any: the transfer's status and the
  \<open>actual_length\<close> bytes of its buffer.
\<close>

record response =
  submit_ret :: int
  usb_pollfds :: "(int \<times> 16 word) list"
  next_timeout :: int
  poll_ret :: int
  poll_revents :: "nat \<Rightarrow> 16 word"
  completion :: "(transfer_status \<times> 8 word list) option"

text \<open>
  \<open>rx_cb\<close>: \<open>*resubmit = 1\<close>, and the received bytes go through the decoder when the
  transfer completed.
\<close>

definition rx_cb :: "transfer_status \<Rightarrow> 8 word list \<Rightarrow> reactor \<Rightarrow> reactor" where
  "rx_cb ts buffer s =
     (let s1 = s\<lparr>resubmit := 1\<rparr> in
      if ts = LIBUSB_TRANSFER_COMPLETED then
        (case process_buffer (codec s1) buffer of
           (d, es) \<Rightarrow> s1\<lparr>codec := d, done_so_far := done_so_far s1 @ map Call_event es\<rparr>)
      else s1)"

text \<open>
  The wait set: the two filling loops stop at \<open>POLLFDS\<close> entries, the first also at the
  end of libusb's list, the second also after \<open>midipolls->npfd\<close> entries. \<open>midipolls\<close>
  (\<open>struct polls\<close> of \<open>midi.h\<close>) is the list of its \<open>npfd\<close> descriptors. \<open>revents\<close> of an
  entry taken from libusb is not set before \<open>poll\<close> writes it.
\<close>

definition usb_entries :: "(int \<times> 16 word) list \<Rightarrow> pollfd list" where
  "usb_entries ups = map (\<lambda>(f, ev). \<lparr>fd = f, events = ev, revents = 0\<rparr>) (take POLLFDS ups)"

definition midi_entries :: "nat \<Rightarrow> pollfd list \<Rightarrow> pollfd list" where
  "midi_entries n midipolls = take (POLLFDS - n) midipolls"

fun polled :: "(nat \<Rightarrow> 16 word) \<Rightarrow> nat \<Rightarrow> pollfd list \<Rightarrow> pollfd list" where
  "polled rv i [] = []"
| "polled rv i (p # ps) = p\<lparr>revents := rv i\<rparr> # polled rv (Suc i) ps"

text \<open>
  \<open>for (i = usbfds; i < fds; i++) if (pollfds[i].revents & POLLIN) midi_input();\<close>
  Every index read is below \<open>fds\<close>, the number of entries filled.
\<close>

function midi_loop :: "pollfd list \<Rightarrow> nat \<Rightarrow> nat \<Rightarrow> reactor_action list" where
  "midi_loop pfds i n =
     (if i < n then
        (if revents (pfds ! i) AND POLLIN \<noteq> 0 then [Midi_input] else [])
        @ midi_loop pfds (Suc i) n
      else [])"
  by pat_completeness auto
termination
  by (relation "measure (\<lambda>(pfds, i, n). n - i)") auto

text \<open>
  One step of \<open>receive_loop\<close> from the place \<open>pc\<close>. libusb's part: a submission that
  returns 0 is in flight until \<open>libusb_handle_events_timeout\<close> reports its completion,
  which it does by calling \<open>rx_cb\<close>; it reports none when nothing is in flight.
\<close>

definition step :: "pollfd list \<Rightarrow> response \<Rightarrow> reactor \<Rightarrow> reactor" where
  "step midipolls r s =
     (case pc s of
        At_submit \<Rightarrow>
          (let s1 = s\<lparr>stat := submit_ret r,
                      in_flight := in_flight s + (if submit_ret r = 0 then 1 else 0),
                      done_so_far := done_so_far s @ [Submit_transfer]\<rparr>
           in if submit_ret r < 0 then s1\<lparr>pc := At_exit_ml\<rparr> else s1\<lparr>pc := At_clear\<rparr>)
      | At_clear \<Rightarrow> s\<lparr>resubmit := 0, pc := At_wait\<rparr>
      | At_wait \<Rightarrow>
          (let usb = usb_entries (usb_pollfds r);
               midi = midi_entries (length usb) midipolls
           in if next_timeout r < 0 then s\<lparr>stat := next_timeout r, pc := At_exit_ml\<rparr>
              else if poll_ret r < 0 then s\<lparr>stat := LIBUSB_ERROR_OTHER, pc := At_exit_ml\<rparr>
              else s\<lparr>pollfds := polled (poll_revents r) 0 (usb @ midi),
                     usbfds := length usb, pc := At_handle_events\<rparr>)
      | At_handle_events \<Rightarrow>
          (case completion r of
             None \<Rightarrow> s\<lparr>pc := At_midi\<rparr>
           | Some (ts, buffer) \<Rightarrow>
               if 0 < in_flight s
               then (rx_cb ts (take RX_BUFSIZE buffer) (s\<lparr>in_flight := in_flight s - 1\<rparr>))
                      \<lparr>pc := At_midi\<rparr>
               else s\<lparr>pc := At_midi\<rparr>)
      | At_midi \<Rightarrow>
          s\<lparr>done_so_far := done_so_far s @ midi_loop (pollfds s) (usbfds s) (length (pollfds s)),
            pc := At_check\<rparr>
      | At_check \<Rightarrow>
          (if resubmit s \<noteq> 0 then s\<lparr>resubmit := 0, pc := At_resubmit\<rparr>
           else s\<lparr>pc := At_wait\<rparr>)
      | At_resubmit \<Rightarrow>
          (let s1 = s\<lparr>stat := submit_ret r,
                      in_flight := in_flight s + (if submit_ret r = 0 then 1 else 0),
                      done_so_far := done_so_far s @ [Submit_transfer]\<rparr>
           in if submit_ret r \<noteq> 0 then s1\<lparr>pc := At_exit_ml\<rparr> else s1\<lparr>pc := At_wait\<rparr>)
      | At_exit_ml \<Rightarrow> s\<lparr>done_so_far := done_so_far s @ [Free_transfer], pc := Returned\<rparr>
      | Returned \<Rightarrow> s)"

text \<open>
  \<open>receive_loop\<close> run against a finite list of answers. It starts before the first
  submission with nothing in flight; \<open>resubmit\<close> and \<open>stat\<close> are not initialised, so
  their first values are arbitrary.
\<close>

fun run :: "pollfd list \<Rightarrow> response list \<Rightarrow> reactor \<Rightarrow> reactor" where
  "run midipolls [] s = s"
| "run midipolls (r # rs) s = run midipolls rs (step midipolls r s)"

definition receive_loop_start :: "int \<Rightarrow> int \<Rightarrow> decoder \<Rightarrow> reactor" where
  "receive_loop_start resubmit0 stat0 d =
     \<lparr>pc = At_submit, resubmit = resubmit0, stat = stat0, pollfds = [], usbfds = 0,
      codec = d, done_so_far = [], in_flight = 0\<rparr>"

text \<open>The test the loop over the MIDI descriptors makes on an entry of the wait set.\<close>

definition readable :: "pollfd \<Rightarrow> bool" where
  "readable p = (revents p AND POLLIN \<noteq> 0)"

text \<open>The number of calls of \<open>midi_input\<close> made so far.\<close>

definition midi_inputs :: "reactor \<Rightarrow> nat" where
  "midi_inputs s = length (filter (\<lambda>a. a = Midi_input) (done_so_far s))"

text \<open>
  The invariant of the transfer's life cycle: at most one submission is in flight; where
  the loop waits, handles events or is about to submit again, \<open>resubmit\<close> is 0; once the
  callback has set \<open>resubmit\<close>, nothing is in flight; and nothing is in flight where a
  submission is about to be made.
\<close>

definition transfer_inv :: "reactor \<Rightarrow> bool" where
  "transfer_inv s =
     (in_flight s \<le> 1
      \<and> (pc s = At_wait \<or> pc s = At_handle_events \<or> pc s = At_resubmit \<longrightarrow> resubmit s = 0)
      \<and> ((pc s = At_midi \<or> pc s = At_check) \<and> resubmit s \<noteq> 0 \<longrightarrow> in_flight s = 0)
      \<and> (pc s = At_submit \<or> pc s = At_resubmit \<longrightarrow> in_flight s = 0))"

section \<open>The supervisor: \<open>main\<close>\<close>

text \<open>
  What one iteration of the \<open>do\<close> loop meets: libusb's answers to \<open>usb_connect\<close>, the
  return values of the four \<open>send_hexdata\<close> calls of \<open>nocturn_init\<close>, and the value
  \<open>receive_loop\<close> returns (\<open>None\<close> when it never returns). The later ones are looked at
  only if the iteration gets that far.
\<close>

record attempt =
  usb :: usb_env
  send1 :: int
  send2 :: int
  send3 :: int
  send4 :: int
  receive :: "int option"

datatype action =
    Sleep nat
  | Usb_connect
  | Nocturn_init
  | Receive_loop
  | Libusb_close
  | Libusb_exit
  | Return int

text \<open>
  The \<open>do ... while (stat)\<close> loop, from the value \<open>st\<close> of \<open>stat\<close> at the top of an
  iteration, against a finite list of attempts. \<open>continue\<close> goes to the test
  \<open>while (stat)\<close>, where \<open>stat\<close> is negative, so the loop goes on.
\<close>

fun main_loop :: "int \<Rightarrow> attempt list \<Rightarrow> action list" where
  "main_loop st [] = []"
| "main_loop st (a # as) =
     (if st \<noteq> 0 then [Sleep 1] else []) @ Usb_connect #
     (let c = fst (usb_connect (usb a)) in
      if c < 0 then (if c \<noteq> 0 then main_loop c as else [Libusb_close, Libusb_exit, Return 0])
      else
        let i = fst (nocturn_init (send1 a) (send2 a) (send3 a) (send4 a)) in
        if i < 0
        then Nocturn_init # (if i \<noteq> 0 then main_loop i as else [Libusb_close, Libusb_exit, Return 0])
        else
          (case receive a of
             None \<Rightarrow> [Nocturn_init, Receive_loop]
           | Some r \<Rightarrow>
               Nocturn_init # Receive_loop #
               (if r \<noteq> 0 then main_loop r as else [Libusb_close, Libusb_exit, Return 0])))"

text \<open>
  \<open>main\<close>: it returns 2 at once when \<open>midi_init_alsa\<close> gives no descriptors; \<open>stat\<close>
  starts at 0.
\<close>

definition main :: "bool \<Rightarrow> attempt list \<Rightarrow> action list" where
  "main midipolls_ok attempts = (if \<not> midipolls_ok then [Return 2] else main_loop 0 attempts)"

section \<open>Example environments\<close>

text \<open>
  A device that is present, with one inbound and one outbound endpoint, and one that is
  absent.
\<close>

abbreviation (input) good_usb :: usb_env where
  "good_usb \<equiv> \<lparr>open_device = Some 1, get_device = True, get_device_descriptor = 0,
                 get_config_descriptor = 0, ep0_address = 0x81, ep1_address = 0x02,
                 set_configuration = 0, claim_interface = 0\<rparr>"

abbreviation (input) no_usb :: usb_env where
  "no_usb \<equiv> \<lparr>open_device = None, get_device = True, get_device_descriptor = 0,
               get_config_descriptor = 0, ep0_address = 0x81, ep1_address = 0x02,
               set_configuration = 0, claim_interface = 0\<rparr>"

text \<open>
  Two MIDI descriptors, and an environment in which every call succeeds, libusb has one
  descriptor, \<open>poll\<close> reports every entry readable, and a completed transfer of three
  bytes is found.
\<close>

abbreviation (input) two_midi :: "pollfd list" where
  "two_midi \<equiv> [\<lparr>fd = 5, events = 1, revents = 0\<rparr>, \<lparr>fd = 6, events = 1, revents = 0\<rparr>]"

abbreviation (input) all_ready :: response where
  "all_ready \<equiv> \<lparr>submit_ret = 0, usb_pollfds = [(3, 1)], next_timeout = 0, poll_ret = 3,
                 poll_revents = (\<lambda>i. 1),
                 completion = Some (LIBUSB_TRANSFER_COMPLETED, [0xB0, 0x10, 0x40])\<rparr>"

text \<open>
  The reactor at the top of the loop for the first time: the transfer is submitted and
  \<open>resubmit\<close> is cleared.
\<close>

abbreviation (input) at_wait :: reactor where
  "at_wait \<equiv>
     \<lparr>pc = At_wait, resubmit = 0, stat = 0, pollfds = [], usbfds = 0, codec = decoder_init,
      done_so_far = [Submit_transfer], in_flight = 1\<rparr>"

section \<open>Properties of the decoder\<close>

lemma sint_and_255: "sint (b :: 8 word) AND 0xff = uint b"
proof -
  have "take_bit 8 (sint b) = take_bit 8 (uint b)"
    by (simp add: sint_uint take_bit_signed_take_bit)
  also have "\<dots> = uint b"
    by (simp add: take_bit_int_eq_self_iff) (use uint_bounded [of b] in simp)
  finally have "sint b AND mask 8 = uint b"
    by (simp add: take_bit_eq_mask)
  then show ?thesis
    by (simp add: mask_eq_exp_minus_1)
qed

lemma uint_and_255: "uint (b :: 8 word) AND 0xff = uint b"
proof -
  have "take_bit 8 (uint b) = uint b"
    by (simp add: take_bit_int_eq_self_iff) (use uint_bounded [of b] in simp)
  then have "uint b AND mask 8 = uint b"
    by (simp add: take_bit_eq_mask)
  then show ?thesis
    by (simp add: mask_eq_exp_minus_1)
qed

lemma process_char: "process s (sint (b :: 8 word)) = process s (uint b)"
proof -
  have "sint b AND 0xff = uint b AND 0xff"
    by (simp only: sint_and_255 uint_and_255)
  then show ?thesis
    by (simp add: process_def)
qed

text \<open>
  C7. Boundary independence: for every byte sequence, every split of it into a prefix and
  a suffix and every decoder state, \<open>process_buffer\<close> on the prefix and then, from the
  state reached, on the suffix makes the same calls of \<open>event\<close> in the same order, and
  ends in the same state, as one call of \<open>process_buffer\<close> on the whole sequence.
\<close>

theorem process_buffer_append:
  "process_buffer s (pre @ suf) =
     (case process_buffer s pre of (s1, es1) \<Rightarrow>
        (case process_buffer s1 suf of (s2, es2) \<Rightarrow> (s2, es1 @ es2)))"
proof (induction pre arbitrary: s)
  case Nil
  show ?case by (simp split: prod.splits)
next
  case (Cons b pre)
  show ?case
    by (simp add: Cons.IH split: prod.splits)
qed

text \<open>
  C6. Running status: from the initial state, the bytes \<open>B0 10 40 20 50\<close> make exactly
  two calls of \<open>event\<close>, first \<open>(0xB0, 0, 0x10, 0x40)\<close> and then
  \<open>(0xB0, 0, 0x20, 0x50)\<close>; after the first call (three bytes in) and after the second
  the decoder is in \<open>DATA1\<close>, not in \<open>STATUS\<close>.
\<close>

theorem running_status_example:
  "process_buffer decoder_init [0xB0, 0x10, 0x40, 0x20, 0x50] =
     (\<lparr>state = DATA1, status = 0xB0, chan = 0, data1 = 0x20\<rparr>,
      [(0xB0, 0, 0x10, 0x40), (0xB0, 0, 0x20, 0x50)])
   \<and> process_buffer decoder_init [0xB0, 0x10, 0x40] =
     (\<lparr>state = DATA1, status = 0xB0, chan = 0, data1 = 0x10\<rparr>, [(0xB0, 0, 0x10, 0x40)])"
  by (simp add: decoder_init_def process_def)

text \<open>
  C8. The decoder is total: for every value passed to \<open>process\<close> and every decoder
  state there is a result, with no or one call of \<open>event\<close> (the model has no failing
  branch because the source has none: the \<open>STATUS\<close> case and \<open>default\<close> just
  \<open>break\<close>). A data byte (high bit clear) processed in \<open>STATUS\<close> makes no call of
  \<open>event\<close> and leaves every static variable as it was.
\<close>

theorem process_total:
  "(\<exists>s' es. process s d = (s', es) \<and> length es \<le> 1)
   \<and> ((d AND 0xff) AND 0x80 = 0 \<and> state s = STATUS \<longrightarrow> process s d = (s, []))"
  by (cases "state s") (simp_all add: process_def Let_def)

theorem process_total_witness:
  "(\<exists>s' es. process decoder_init 0x40 = (s', es) \<and> length es \<le> 1)
   \<and> ((0x40 :: int) AND 0xff) AND 0x80 = 0 \<and> state decoder_init = STATUS
   \<and> process decoder_init 0x40 = (decoder_init, [])"
  using process_total [of decoder_init "0x40"] by (simp add: decoder_init_def)

text \<open>
  C10. Frame condition: a byte with its high bit clear leaves the remembered status and
  channel as they were, in every state; so they change only on a byte with the high bit
  set.
\<close>

theorem process_data_byte_frame:
  "(d AND 0xff) AND 0x80 = 0 \<Longrightarrow>
     status (fst (process s d)) = status s \<and> chan (fst (process s d)) = chan s"
  by (cases "state s") (simp_all add: process_def Let_def)

theorem process_data_byte_frame_witness:
  "((0x40 :: int) AND 0xff) AND 0x80 = 0
   \<and> status (fst (process \<lparr>state = DATA2, status = 176, chan = 3, data1 = 5\<rparr> 0x40)) = 176
   \<and> chan (fst (process \<lparr>state = DATA2, status = 176, chan = 3, data1 = 5\<rparr> 0x40)) = 3"
  using process_data_byte_frame [of "0x40" "\<lparr>state = DATA2, status = 176, chan = 3, data1 = 5\<rparr>"]
  by simp

section \<open>Properties of the translation layer\<close>

text \<open>
  C1, as the code has it. In the plain build every control-change message (status 176)
  is forwarded: \<open>event\<close> calls \<open>midi_send_control_change\<close> exactly once, with channel 1,
  \<open>data1\<close> as controller number and \<open>data2\<close> as value, whatever \<open>data1\<close> is, the
  incrementor-touch range 96..103 included. What that range suppresses is the diagnostic
  line: it is printed exactly when \<open>data1\<close> is outside 96..103.
\<close>

theorem event_forwards_every_cc:
  "forwarded (event False ret 176 c d1 d2) = [Midi_send_control_change 1 d1 d2]
   \<and> (Printf_status 176 c d1 d2 \<in> set (event False ret 176 c d1 d2) \<longleftrightarrow> (d1 < 96 \<or> d1 > 103))"
  by (simp add: event_def forwarded_def)

text \<open>
  C1, as the claim states it, fails: a control-change message with \<open>data1 = 96\<close> is
  handed to the MIDI sink.
\<close>

theorem event_touch_range_counterexample:
  "forwarded (event False 0 176 0 96 127) = [Midi_send_control_change 1 96 127]"
  by (simp add: event_def forwarded_def)

section \<open>Properties of the hex-pair decoder\<close>

lemma digit_hexdigits: "n < 16 \<Longrightarrow> digit (of_char (hexdigits ! n)) = int n"
proof -
  have "\<forall>n\<in>{0..<16}. digit (of_char (hexdigits ! n)) = int n"
    unfolding hexdigits_def digit_def by (simp add: atLeastLessThan_nat_numeral)
  then show "n < 16 \<Longrightarrow> digit (of_char (hexdigits ! n)) = int n"
    by simp
qed

lemma shift_or:
  assumes "lo < 16"
  shows "push_bit 4 (hi :: int) OR int lo = 16 * hi + int lo"
proof -
  have low: "take_bit 4 (int lo) = int lo"
    using assms by (simp add: take_bit_int_eq_self)
  then have "push_bit 4 hi OR int lo = push_bit 4 hi OR take_bit 4 (int lo)"
    by simp
  also have "\<dots> = push_bit 4 hi + take_bit 4 (int lo)"
    by (rule disjunctive_add [symmetric]) (simp add: bit_simps)
  finally show ?thesis
    using low by (simp add: push_bit_eq_mult)
qed

text \<open>
  C4, as the code has it. A pair of characters out of \<open>0123456789abcdef\<close> (digits and
  lower-case letters) decodes to one byte, the first character giving the most
  significant nibble; the pair is decoded independently of what follows it; and
  \<open>b04800\<close> decodes to the bytes \<open>B0 48 00\<close>. The decoder is not case-insensitive:
  \<open>0B\<close> decodes to the byte \<open>EB\<close>, \<open>0b\<close> to the byte \<open>0B\<close>.
\<close>

theorem hex_pair_lowercase:
  "(hi < 16 \<and> lo < 16 \<longrightarrow>
      byte (hexdigits ! hi # hexdigits ! lo # cs) = Some (16 * int hi + int lo))
   \<and> byte (c0 # c1 # cs) = byte [c0, c1]
   \<and> send_hexdata ''b04800'' = Some [0xB0, 0x48, 0x00]
   \<and> send_hexdata ''0B'' = Some [0xEB] \<and> send_hexdata ''0b'' = Some [0x0B]"
proof (intro conjI impI)
  assume "hi < 16 \<and> lo < 16"
  then show "byte (hexdigits ! hi # hexdigits ! lo # cs) = Some (16 * int hi + int lo)"
    by (simp add: digit_hexdigits shift_left_def shift_or)
next
  show "byte (c0 # c1 # cs) = byte [c0, c1]"
    by simp
next
  show "send_hexdata ''b04800'' = Some [0xB0, 0x48, 0x00]"
    by (simp add: send_hexdata_def digit_def shift_left_def)
next
  show "send_hexdata ''0B'' = Some [0xEB]"
    by (simp add: send_hexdata_def digit_def shift_left_def)
next
  show "send_hexdata ''0b'' = Some [0x0B]"
    by (simp add: send_hexdata_def digit_def shift_left_def)
qed

theorem hex_pair_lowercase_witness:
  "(11 :: nat) < 16 \<and> (0 :: nat) < 16
   \<and> byte ''b04800'' = Some 176
   \<and> send_hexdata ''b04800'' = Some [0xB0, 0x48, 0x00]"
  using hex_pair_lowercase [of 11 0 "''4800''" "CHR ''b''" "CHR ''0''"]
  by (simp add: hexdigits_def)

text \<open>
  C4, as the claim states it, fails: the pair \<open>0B\<close> does not decode to what \<open>0b\<close>
  decodes to. \<open>byte\<close> gives 11 for \<open>0b\<close> and -21 for \<open>0B\<close>, and the byte stored in the
  payload is \<open>0B\<close> for the one and \<open>EB\<close> for the other.
\<close>

theorem hex_uppercase_counterexample:
  "byte ''0b'' = Some 11 \<and> byte ''0B'' = Some (- 21)
   \<and> send_hexdata ''0b'' = Some [0x0B] \<and> send_hexdata ''0B'' = Some [0xEB]"
  by (simp add: send_hexdata_def digit_def shift_left_def)

section \<open>Properties of the connection manager\<close>

lemma endpoints_never_unset: "\<not> endpoints_unset tx rx"
  by (simp add: endpoints_unset_def)

text \<open>
  C2. The device answers every call, and both of its endpoints have the direction bit
  set (addresses \<open>81\<close> and \<open>82\<close>). \<open>usb_connect\<close> does not fail: it returns 0 and fills in
  \<open>rx_ep = 82\<close> and \<open>tx_ep = FF\<close>, the value the outbound endpoint was initialised with.
\<close>

theorem usb_connect_both_inbound:
  "usb_connect \<lparr>open_device = Some 1, get_device = True, get_device_descriptor = 0,
                 get_config_descriptor = 0, ep0_address = 0x81, ep1_address = 0x82,
                 set_configuration = 0, claim_interface = 0\<rparr>
   = (0, Some \<lparr>devh = Some 1, rx_ep = 0x82, tx_ep = 0xFF\<rparr>)"
  by (simp add: usb_connect_def endpoints_unset_def)

lemma usb_connect_both_outbound:
  "usb_connect \<lparr>open_device = Some 1, get_device = True, get_device_descriptor = 0,
                 get_config_descriptor = 0, ep0_address = 0x01, ep1_address = 0x02,
                 set_configuration = 0, claim_interface = 0\<rparr>
   = (0, Some \<lparr>devh = Some 1, rx_ep = 0xFF, tx_ep = 0x02\<rparr>)"
  by (simp add: usb_connect_def endpoints_unset_def)

section \<open>Properties of the reactor\<close>

lemma midi_loop_filter:
  "n \<le> length pfds \<Longrightarrow>
     midi_loop pfds i n =
       replicate (length (filter readable (take (n - i) (drop i pfds)))) Midi_input"
proof (induction pfds i n rule: midi_loop.induct)
  case (1 pfds i n)
  show ?case
  proof (cases "i < n")
    case True
    with "1.prems" have il: "i < length pfds"
      by simp
    from True have "n - i = Suc (n - Suc i)"
      by simp
    then have "take (n - i) (drop i pfds) = pfds ! i # take (n - Suc i) (drop (Suc i) pfds)"
      using il by (simp add: Cons_nth_drop_Suc [symmetric])
    moreover have "midi_loop pfds (Suc i) n =
       replicate (length (filter readable (take (n - Suc i) (drop (Suc i) pfds)))) Midi_input"
      using "1.IH" [OF True] "1.prems" by simp
    ultimately show ?thesis
      using True by (subst midi_loop.simps) (simp add: readable_def)
  next
    case False
    then show ?thesis
      by (subst midi_loop.simps) simp
  qed
qed

lemma polled_append:
  "polled rv i (xs @ ys) = polled rv i xs @ polled rv (i + length xs) ys"
  by (induction xs arbitrary: i) simp_all

lemma length_polled: "length (polled rv i ps) = length ps"
  by (induction ps arbitrary: i) simp_all

lemma no_midi_in_events: "filter (\<lambda>a. a = Midi_input) (map Call_event es) = []"
  by (induction es) simp_all

lemma rx_cb_midi_inputs: "midi_inputs (rx_cb ts b s) = midi_inputs s"
  by (simp add: rx_cb_def midi_inputs_def Let_def no_midi_in_events split: prod.splits)

lemma rx_cb_wait_set:
  "pollfds (rx_cb ts b s) = pollfds s" "usbfds (rx_cb ts b s) = usbfds s"
  "pc (rx_cb ts b s) = pc s"
  by (simp_all add: rx_cb_def Let_def split: prod.splits)


lemma count_polled:
  "length (filter readable (polled rv i ps)) =
     length (filter (\<lambda>j. rv (i + j) AND POLLIN \<noteq> 0) [0..<length ps])"
proof (induction ps arbitrary: i)
  case Nil
  show ?case by simp
next
  case (Cons p ps)
  have "[0..<length (p # ps)] = 0 # map Suc [0..<length ps]"
    by (simp add: upt_conv_Cons map_Suc_upt del: upt_Suc)
  then show ?case
    using Cons.IH [of "Suc i"] by (simp add: filter_map o_def readable_def del: upt_Suc)
qed


lemma other_steps_no_midi_input:
  assumes "pc s \<noteq> At_midi"
  shows "midi_inputs (step mp r s) = midi_inputs s"
proof (cases "pc s")
  case At_submit
  then show ?thesis by (simp add: step_def midi_inputs_def Let_def)
next
  case At_clear
  then show ?thesis by (simp add: step_def midi_inputs_def)
next
  case At_wait
  then show ?thesis by (simp add: step_def midi_inputs_def Let_def)
next
  case At_handle_events
  show ?thesis
  proof (cases "completion r")
    case None
    with At_handle_events show ?thesis by (simp add: step_def midi_inputs_def)
  next
    case (Some c)
    obtain ts b where c: "c = (ts, b)" by (cases c)
    have "midi_inputs
        ((rx_cb ts (take RX_BUFSIZE b) (s\<lparr>in_flight := in_flight s - 1\<rparr>))\<lparr>pc := At_midi\<rparr>) =
      midi_inputs s"
      using rx_cb_midi_inputs [of ts "take RX_BUFSIZE b" "s\<lparr>in_flight := in_flight s - 1\<rparr>"]
      by (simp add: midi_inputs_def)
    with At_handle_events Some c show ?thesis
      by (simp add: step_def) (simp add: midi_inputs_def)
  qed
next
  case At_midi
  with assms show ?thesis by simp
next
  case At_check
  then show ?thesis by (simp add: step_def midi_inputs_def)
next
  case At_resubmit
  then show ?thesis by (simp add: step_def midi_inputs_def Let_def)
next
  case At_exit_ml
  then show ?thesis by (simp add: step_def midi_inputs_def)
next
  case Returned
  then show ?thesis by (simp add: step_def midi_inputs_def)
qed


lemma midi_step:
  "pc s = At_midi \<Longrightarrow>
     done_so_far (step mp r s) =
       done_so_far s @
       replicate (length (filter readable (drop (usbfds s) (pollfds s)))) Midi_input"
  using midi_loop_filter [of "length (pollfds s)" "pollfds s" "usbfds s"]
  by (simp add: step_def)

lemma wait_step:
  assumes "pc s = At_wait" "0 \<le> next_timeout r" "0 \<le> poll_ret r"
  shows "pc (step mp r s) = At_handle_events"
    and "usbfds (step mp r s) = min 10 (length (usb_pollfds r))"
    and "drop (usbfds (step mp r s)) (pollfds (step mp r s)) =
           polled (poll_revents r) (min 10 (length (usb_pollfds r)))
             (take (10 - min 10 (length (usb_pollfds r))) mp)"
    and "done_so_far (step mp r s) = done_so_far s"
proof -
  have n: "length (usb_entries (usb_pollfds r)) = min 10 (length (usb_pollfds r))"
    by (simp add: usb_entries_def POLLFDS_def min.commute)
  show "pc (step mp r s) = At_handle_events"
    using assms by (simp add: step_def Let_def)
  show "usbfds (step mp r s) = min 10 (length (usb_pollfds r))"
    using assms n by (simp add: step_def Let_def)
  show "done_so_far (step mp r s) = done_so_far s"
    using assms by (simp add: step_def Let_def)
  have "pollfds (step mp r s) =
      polled (poll_revents r) 0 (usb_entries (usb_pollfds r)) @
      polled (poll_revents r) (min 10 (length (usb_pollfds r)))
        (take (10 - min 10 (length (usb_pollfds r))) mp)"
    using assms n by (simp add: step_def Let_def midi_entries_def POLLFDS_def polled_append)
  moreover have "length (polled (poll_revents r) 0 (usb_entries (usb_pollfds r))) =
      usbfds (step mp r s)"
    using assms n by (simp add: step_def Let_def length_polled)
  ultimately show "drop (usbfds (step mp r s)) (pollfds (step mp r s)) =
           polled (poll_revents r) (min 10 (length (usb_pollfds r)))
             (take (10 - min 10 (length (usb_pollfds r))) mp)"
    by (metis append_eq_conv_conj)
qed

lemma handle_step:
  assumes "pc s = At_handle_events"
  shows "pc (step mp r s) = At_midi"
    and "usbfds (step mp r s) = usbfds s"
    and "pollfds (step mp r s) = pollfds s"
  using assms by (auto simp: step_def rx_cb_wait_set split: option.splits prod.splits)

lemma at_wait_reached:
  "run two_midi [all_ready, all_ready] (receive_loop_start 7 7 decoder_init) = at_wait"
  by (simp add: receive_loop_start_def step_def usb_entries_def midi_entries_def POLLFDS_def
      RX_BUFSIZE_def rx_cb_def decoder_init_def process_def POLLIN_def)

text \<open>
  C3, as the code has it. In an iteration of the loop that gets past \<open>poll\<close>, the
  calls of \<open>midi_input\<close> are made at the loop over the MIDI descriptors, one for each
  MIDI descriptor of the wait set for which \<open>poll\<close> set \<open>POLLIN\<close> in \<open>revents\<close> in that
  iteration: as many calls as there are such descriptors. The wait set holds the first
  ten of libusb's descriptors and then as many of the MIDI descriptors as fit into ten
  entries, so MIDI descriptor \<open>j\<close> is entry \<open>usbfds + j\<close>. No other step of the loop
  calls \<open>midi_input\<close>.
\<close>

theorem midi_input_per_descriptor:
  "(pc s \<noteq> At_midi \<longrightarrow> midi_inputs (step mp r s) = midi_inputs s)
   \<and> (pc s = At_wait \<and> 0 \<le> next_timeout r1 \<and> 0 \<le> poll_ret r1 \<longrightarrow>
        pc (run mp [r1, r2, r3] s) = At_check
        \<and> done_so_far (run mp [r1, r2, r3] s) =
            done_so_far (run mp [r1, r2] s) @
            replicate
              (length (filter (\<lambda>j. poll_revents r1 (min 10 (length (usb_pollfds r1)) + j) AND 1 \<noteq> 0)
                 [0..<min (length mp) (10 - min 10 (length (usb_pollfds r1)))]))
              Midi_input
        \<and> midi_inputs (run mp [r1, r2, r3] s) =
            midi_inputs s +
            length (filter (\<lambda>j. poll_revents r1 (min 10 (length (usb_pollfds r1)) + j) AND 1 \<noteq> 0)
              [0..<min (length mp) (10 - min 10 (length (usb_pollfds r1)))]))"
proof (intro conjI impI)
  assume "pc s \<noteq> At_midi"
  then show "midi_inputs (step mp r s) = midi_inputs s"
    by (rule other_steps_no_midi_input)
next
  assume h: "pc s = At_wait \<and> 0 \<le> next_timeout r1 \<and> 0 \<le> poll_ret r1"
  define s1 where "s1 = step mp r1 s"
  define s2 where "s2 = step mp r2 s1"
  define k where "k = length (filter (\<lambda>j. poll_revents r1 (min 10 (length (usb_pollfds r1)) + j) AND 1 \<noteq> 0)
              [0..<min (length mp) (10 - min 10 (length (usb_pollfds r1)))])"
  from h have a: "pc s = At_wait" "0 \<le> next_timeout r1" "0 \<le> poll_ret r1"
    by simp_all
  note w = wait_step [OF a, of mp, folded s1_def]
  from w(1) have hd: "pc s2 = At_midi" "usbfds s2 = usbfds s1" "pollfds s2 = pollfds s1"
    unfolding s2_def by (simp_all add: handle_step)
  have cnt: "length (filter readable (drop (usbfds s2) (pollfds s2))) = k"
    unfolding hd(2,3) w(3) count_polled k_def by (simp add: POLLIN_def min.commute)
  have tr: "done_so_far (step mp r3 s2) = done_so_far s2 @ replicate k Midi_input"
    using midi_step [OF hd(1), of mp r3] cnt by simp
  have m2: "midi_inputs s2 = midi_inputs s"
    using other_steps_no_midi_input [of s1 mp r2] other_steps_no_midi_input [of s mp r1] w(1) a(1)
    unfolding s2_def s1_def by simp
  show "pc (run mp [r1, r2, r3] s) = At_check"
    using hd(1) by (simp add: s1_def s2_def step_def)
  show "done_so_far (run mp [r1, r2, r3] s) = done_so_far (run mp [r1, r2] s) @ replicate k Midi_input"
    using tr by (simp add: s1_def s2_def)
  show "midi_inputs (run mp [r1, r2, r3] s) = midi_inputs s + k"
    using tr m2 by (simp add: s1_def s2_def midi_inputs_def)
qed


theorem midi_input_per_descriptor_witness:
  "pc at_wait \<noteq> At_midi
   \<and> midi_inputs (step two_midi all_ready at_wait) = 0
   \<and> pc at_wait = At_wait
   \<and> (0 :: int) \<le> next_timeout all_ready \<and> 0 \<le> poll_ret all_ready
   \<and> midi_inputs at_wait = 0
   \<and> midi_inputs (run two_midi [all_ready, all_ready, all_ready] at_wait) = 2"
proof -
  have elsewhere: "pc at_wait \<noteq> At_midi"
    by simp
  have pre: "pc at_wait = At_wait \<and> 0 \<le> next_timeout all_ready \<and> 0 \<le> poll_ret all_ready"
    by simp
  have two: "[0..<2] = [0, Suc 0]"
    by (simp add: upt_conv_Cons)
  have start: "midi_inputs at_wait = 0"
    by (simp add: midi_inputs_def)
  note all = midi_input_per_descriptor [of at_wait two_midi all_ready all_ready all_ready all_ready]
  note one = all [THEN conjunct1, THEN mp, OF elsewhere]
  note it = all [THEN conjunct2, THEN mp, OF pre, THEN conjunct2, THEN conjunct2]
  have first: "midi_inputs (step two_midi all_ready at_wait) = 0"
    unfolding one by (rule start)
  have "midi_inputs (run two_midi [all_ready, all_ready, all_ready] at_wait) = 2"
    unfolding it start by (simp add: two)
  then show ?thesis
    using elsewhere first pre start by simp
qed

text \<open>
  C3, as the claim states it, fails: with two MIDI descriptors that are both readable,
  the first iteration of the loop calls \<open>midi_input\<close> twice.
\<close>

theorem midi_input_twice_counterexample:
  "done_so_far (run two_midi [all_ready, all_ready, all_ready, all_ready, all_ready]
      (receive_loop_start 7 7 decoder_init))
   = [Submit_transfer, Call_event (176, 0, 16, 64), Midi_input, Midi_input]"
  by (simp add: receive_loop_start_def step_def usb_entries_def midi_entries_def POLLFDS_def
      RX_BUFSIZE_def rx_cb_def decoder_init_def process_def POLLIN_def)

lemma rx_cb_fields:
  "pc (rx_cb ts b s) = pc s"
  "in_flight (rx_cb ts b s) = in_flight s"
  "resubmit (rx_cb ts b s) = 1"
  by (simp_all add: rx_cb_def Let_def split: prod.splits)

lemma step_inv: "transfer_inv s \<Longrightarrow> transfer_inv (step mp r s)"
  unfolding transfer_inv_def step_def
  by (cases "pc s") (auto simp: Let_def rx_cb_fields split: option.splits prod.splits)

lemma run_inv: "transfer_inv s \<Longrightarrow> transfer_inv (run mp rs s)"
  by (induction rs arbitrary: s) (simp_all add: step_inv)

lemma start_inv: "transfer_inv (receive_loop_start x y d)"
  by (simp add: transfer_inv_def receive_loop_start_def)

text \<open>
  C5. In every state \<open>receive_loop\<close> reaches, whatever the environment answers, at most
  one submission of the transfer is in flight; and where the loop is about to submit
  again, nothing is in flight (the callback has run for the previous submission) and
  \<open>resubmit\<close> has been set back to 0.
\<close>

theorem at_most_one_in_flight:
  "in_flight (run mp rs (receive_loop_start x y d)) \<le> 1
   \<and> (pc (run mp rs (receive_loop_start x y d)) = At_resubmit \<longrightarrow>
        in_flight (run mp rs (receive_loop_start x y d)) = 0
        \<and> resubmit (run mp rs (receive_loop_start x y d)) = 0)"
  using run_inv [OF start_inv, of mp rs x y d] by (simp add: transfer_inv_def)

theorem at_most_one_in_flight_witness:
  "pc (run two_midi [all_ready, all_ready, all_ready, all_ready, all_ready, all_ready]
         (receive_loop_start 7 7 decoder_init)) = At_resubmit
   \<and> in_flight (run two_midi [all_ready, all_ready, all_ready, all_ready, all_ready, all_ready]
         (receive_loop_start 7 7 decoder_init)) = 0
   \<and> resubmit (run two_midi [all_ready, all_ready, all_ready, all_ready, all_ready, all_ready]
         (receive_loop_start 7 7 decoder_init)) = 0"
  using at_most_one_in_flight [of two_midi
      "[all_ready, all_ready, all_ready, all_ready, all_ready, all_ready]" 7 7 decoder_init]
  by (simp add: receive_loop_start_def step_def usb_entries_def midi_entries_def POLLFDS_def
      RX_BUFSIZE_def rx_cb_def decoder_init_def process_def POLLIN_def)

section \<open>Properties of the supervisor\<close>

lemma main_loop_retry:
  assumes fails: "\<forall>a\<in>set fs. fst (usb_connect (usb a)) < 0"
    and ok: "0 \<le> fst (usb_connect (usb ok))"
  shows "main_loop st (fs @ ok # rest) =
     (if st \<noteq> 0 then [Sleep 1] else []) @
     Usb_connect # concat (replicate (length fs) [Sleep 1, Usb_connect]) @
     Nocturn_init #
     (if fst (nocturn_init (send1 ok) (send2 ok) (send3 ok) (send4 ok)) < 0
      then main_loop (fst (nocturn_init (send1 ok) (send2 ok) (send3 ok) (send4 ok))) rest
      else Receive_loop #
        (case receive ok of
           None \<Rightarrow> []
         | Some r \<Rightarrow> if r \<noteq> 0 then main_loop r rest else [Libusb_close, Libusb_exit, Return 0]))"
  using fails
proof (induction fs arbitrary: st)
  case Nil
  show ?case
    using ok by (simp add: Let_def split: option.splits)
next
  case (Cons f fs)
  from Cons.prems have f: "fst (usb_connect (usb f)) < 0"
    and others: "\<forall>a\<in>set fs. fst (usb_connect (usb a)) < 0"
    by simp_all
  from f have nz: "fst (usb_connect (usb f)) \<noteq> 0"
    by simp
  have "main_loop st ((f # fs) @ ok # rest) =
      (if st \<noteq> 0 then [Sleep 1] else []) @ Usb_connect #
        main_loop (fst (usb_connect (usb f))) (fs @ ok # rest)"
    using f by (simp add: Let_def)
  also note Cons.IH [OF others, of "fst (usb_connect (usb f))"]
  finally show ?case
    using nz by simp
qed

text \<open>
  C9, as the code has it. When the first \<open>N\<close> attempts meet a failing \<open>usb_connect\<close>
  and the next one a successful one, \<open>main\<close> calls \<open>usb_connect\<close> exactly \<open>N + 1\<close>
  times up to there, with \<open>sleep(1)\<close> before each call but the first, and then calls
  \<open>nocturn_init\<close>. It enters \<open>receive_loop\<close> when \<open>nocturn_init\<close> reports no error;
  when \<open>nocturn_init\<close> reports one, the loop goes round again.
\<close>

theorem supervisor_retry:
  assumes "\<forall>a\<in>set fs. fst (usb_connect (usb a)) < 0"
    and "0 \<le> fst (usb_connect (usb ok))"
  shows "main True (fs @ ok # rest) =
     Usb_connect # concat (replicate (length fs) [Sleep 1, Usb_connect]) @
     Nocturn_init #
     (if fst (nocturn_init (send1 ok) (send2 ok) (send3 ok) (send4 ok)) < 0
      then main_loop (fst (nocturn_init (send1 ok) (send2 ok) (send3 ok) (send4 ok))) rest
      else Receive_loop #
        (case receive ok of
           None \<Rightarrow> []
         | Some r \<Rightarrow> if r \<noteq> 0 then main_loop r rest else [Libusb_close, Libusb_exit, Return 0]))"
  using main_loop_retry [OF assms, of 0 rest] by (simp add: main_def)

theorem supervisor_retry_witness:
  "main True [\<lparr>usb = no_usb, send1 = 0, send2 = 0, send3 = 0, send4 = 0, receive = None\<rparr>,
              \<lparr>usb = no_usb, send1 = 0, send2 = 0, send3 = 0, send4 = 0, receive = None\<rparr>,
              \<lparr>usb = good_usb, send1 = 0, send2 = 0, send3 = 0, send4 = 0, receive = None\<rparr>]
   = [Usb_connect, Sleep 1, Usb_connect, Sleep 1, Usb_connect, Nocturn_init, Receive_loop]"
  using supervisor_retry [of
     "[\<lparr>usb = no_usb, send1 = 0, send2 = 0, send3 = 0, send4 = 0, receive = None\<rparr>,
       \<lparr>usb = no_usb, send1 = 0, send2 = 0, send3 = 0, send4 = 0, receive = None\<rparr>]"
     "\<lparr>usb = good_usb, send1 = 0, send2 = 0, send3 = 0, send4 = 0, receive = None\<rparr>" "[]"]
  by (simp add: usb_connect_def endpoints_unset_def LIBUSB_ERROR_NO_DEVICE_def nocturn_init_def)

text \<open>
  C9, as the claim states it, fails: \<open>usb_connect\<close> succeeds at the first attempt, the
  first \<open>send_hexdata\<close> of \<open>nocturn_init\<close> fails, and \<open>main\<close> does not enter
  \<open>receive_loop\<close>: it sleeps and connects again.
\<close>

theorem supervisor_bring_up_counterexample:
  "fst (usb_connect good_usb) = 0
   \<and> main True [\<lparr>usb = good_usb, send1 = - 1, send2 = 0, send3 = 0, send4 = 0, receive = None\<rparr>,
                \<lparr>usb = good_usb, send1 = 0, send2 = 0, send3 = 0, send4 = 0, receive = None\<rparr>]
     = [Usb_connect, Nocturn_init, Sleep 1, Usb_connect, Nocturn_init, Receive_loop]"
  by (simp add: main_def usb_connect_def endpoints_unset_def nocturn_init_def)

end
